theory Spec2Isabelle
  imports Main
begin

section \<open>Values, objects and messages\<close>

text \<open>
  The values a document field or a message field can hold. \<open>JUndefined\<close> is
  JavaScript's \<^verbatim>\<open>undefined\<close>: the value a property read yields for a missing
  property, and the value a \<^verbatim>\<open>changed\<close> message uses for a field that is to be
  deleted. Numbers are kept as integers: no arithmetic is done on them here.
  \<open>JFunction\<close> is a built-in function, named, and \<open>JObjectPrototype\<close> is the
  object \<^verbatim>\<open>Object.prototype\<close>: the values a property read finds on the prototype of
  a plain object.
\<close>

datatype jsval =
    JUndefined
  | JNull
  | JBool bool
  | JNum int
  | JStr string
  | JArr "jsval list"
  | JObj "(string \<times> jsval) list"
  | JFunction string
  | JObjectPrototype

text \<open>
  A plain JavaScript object: its own properties in insertion order (the place of
  integer-like names, which are enumerated first, is not kept apart: nothing below
  depends on the order of properties). Its prototype is \<^verbatim>\<open>Object.prototype\<close>,
  whose members are listed in \<open>Object_prototype\<close>.
\<close>

type_synonym obj = "(string \<times> jsval) list"

definition Object_prototype :: obj where
  "Object_prototype =
     [(''constructor'', JFunction ''Object''),
      (''__defineGetter__'', JFunction ''__defineGetter__''),
      (''__defineSetter__'', JFunction ''__defineSetter__''),
      (''hasOwnProperty'', JFunction ''hasOwnProperty''),
      (''__lookupGetter__'', JFunction ''__lookupGetter__''),
      (''__lookupSetter__'', JFunction ''__lookupSetter__''),
      (''isPrototypeOf'', JFunction ''isPrototypeOf''),
      (''propertyIsEnumerable'', JFunction ''propertyIsEnumerable''),
      (''toString'', JFunction ''toString''),
      (''valueOf'', JFunction ''valueOf''),
      (''__proto__'', JObjectPrototype),
      (''toLocaleString'', JFunction ''toLocaleString'')]"

text \<open>
  \<open>js_get\<close> is the property read \<^verbatim>\<open>o[k]\<close>: the own property if there is one,
  else the member of the prototype of that name, else \<^verbatim>\<open>undefined\<close>.
  \<open>stored_value\<close> is the value the object itself holds for a name, \<^verbatim>\<open>undefined\<close>
  when it holds none.
\<close>

definition js_get :: "obj \<Rightarrow> string \<Rightarrow> jsval" where
  "js_get ob k =
     (case map_of ob k of
        Some v \<Rightarrow> v
      | None \<Rightarrow> (case map_of Object_prototype k of None \<Rightarrow> JUndefined | Some v \<Rightarrow> v))"

definition stored_value :: "obj \<Rightarrow> string \<Rightarrow> jsval" where
  "stored_value ob k = (case map_of ob k of None \<Rightarrow> JUndefined | Some v \<Rightarrow> v)"

text \<open>
  \<open>js_put\<close> defines an own property (an existing one keeps its place, a new one
  goes last); \<open>js_delete\<close> is \<^verbatim>\<open>delete o[k]\<close> and \<open>Object_keys\<close> is
  \<^verbatim>\<open>Object.keys(o)\<close>.
\<close>

fun js_put :: "obj \<Rightarrow> string \<Rightarrow> jsval \<Rightarrow> obj" where
  "js_put [] k v = [(k, v)]"
| "js_put (p # ps) k v = (if fst p = k then (k, v) # ps else p # js_put ps k v)"

definition js_delete :: "obj \<Rightarrow> string \<Rightarrow> obj" where
  "js_delete ob k = filter (\<lambda>p. fst p \<noteq> k) ob"

definition Object_keys :: "obj \<Rightarrow> string list" where
  "Object_keys ob = map fst ob"

text \<open>
  \<open>js_assign\<close> is the assignment \<^verbatim>\<open>o[k] = v\<close>. It writes the own property
  \<open>k\<close>, except for the name \<^verbatim>\<open>__proto__\<close> on an object that has no own property
  of that name: there the assignment runs the setter inherited from
  \<^verbatim>\<open>Object.prototype\<close>, which creates no property (it re-points the prototype when
  \<open>v\<close> is an object or \<^verbatim>\<open>null\<close>; no later step here reads through it).
\<close>

definition js_assign :: "obj \<Rightarrow> string \<Rightarrow> jsval \<Rightarrow> obj" where
  "js_assign ob k v =
     (if k = ''__proto__'' \<and> k \<notin> set (Object_keys ob) then ob else js_put ob k v)"

text \<open>
  The object spread \<^verbatim>\<open>{ ...a, ...b }\<close>: the own properties of \<open>b\<close> defined, in
  order, on a copy of \<open>a\<close> (a spread defines properties, it runs no setter).
\<close>

definition js_spread :: "obj \<Rightarrow> obj \<Rightarrow> obj" where
  "js_spread a b = fold (\<lambda>p acc. js_put acc (fst p) (snd p)) b a"

text \<open>
  Identifiers are values (\<^verbatim>\<open>MongoID.idParse\<close> yields a string or an object id).
  The parser is not part of the source file; a message here carries the identifier
  that \<^verbatim>\<open>MongoID.idParse(msg.id)\<close> returns.
\<close>

type_synonym ident = jsval

text \<open>
  The wire message: \<open>msg\<close> is the tag \<^verbatim>\<open>msg.msg\<close>; \<open>msg_fields\<close> is
  \<^verbatim>\<open>msg.fields\<close> and \<open>msg_replace\<close> is \<^verbatim>\<open>msg.replace\<close>, \<open>None\<close> when the property
  is missing (or, for \<^verbatim>\<open>msg.replace\<close>, falsy).
\<close>

record message =
  msg :: string
  msg_id :: ident
  msg_fields :: "obj option"
  msg_replace :: "obj option"

text \<open>
  The modifier object built by \<^verbatim>\<open>_processChanged\<close>: \<open>mod_set\<close> is its
  \<^verbatim>\<open>$set\<close> property and \<open>mod_unset\<close> its \<^verbatim>\<open>$unset\<close> property, \<open>None\<close> while the
  property has not been created.
\<close>

record modifier =
  mod_set :: "obj option"
  mod_unset :: "obj option"

datatype update_arg = Modifier modifier | Replacement obj

section \<open>The collection\<close>

text \<open>
  The calls the replication store makes on its collection, recorded in the order they
  are made.
\<close>

datatype call =
    PauseObservers
  | ResumeObservers
  | Insert obj
  | Update ident update_arg
  | Remove ident
  | RemoveAll

text \<open>
  What an invocation can throw. The first four are the errors \<^verbatim>\<open>update\<close> throws
  itself; \<open>TypeError\<close> is what \<^verbatim>\<open>Object.keys(undefined)\<close> throws; the last two are
  failures of the collection.
\<close>

datatype error =
    AddOnExisting       \<comment> \<open>Expected not to find a document already present for an add\<close>
  | RemoveOnMissing     \<comment> \<open>Expected to find a document already present for removed\<close>
  | ChangeOnMissing     \<comment> \<open>Expected to find a document to change\<close>
  | UnknownMessage string  \<comment> \<open>I don't know how to deal with this message: (tag)\<close>
  | TypeError
  | DuplicateId
  | NoSuchDocument

record collection =
  docs :: "ident \<rightharpoonup> obj"
  calls :: "call list"

text \<open>
  An invocation returns the error it threw, if any, and the collection as it is left
  behind: an exception does not undo what was done before it.
\<close>

type_synonym outcome = "error option \<times> collection"

definition logged :: "collection \<Rightarrow> call \<Rightarrow> collection" where
  "logged c e = c\<lparr>calls := calls c @ [e]\<rparr>"

text \<open>
  Modelled from the spec: the document store (the collection object is not part of the
  source file). \<open>insert(doc)\<close> fails if a document with that identifier already
  exists; \<open>update(id, patch)\<close> fails if no document with that identifier exists and
  otherwise assigns the fields of \<open>set\<close> and deletes the fields of \<open>unset\<close>;
  \<open>update(id, doc)\<close> is a full-document overwrite; \<open>remove(id)\<close> fails if no
  document exists; \<open>remove_all()\<close> clears every document; suspending and resuming
  notifications does not touch the documents. A failing call changes no document.
  The identifier of an inserted document is its \<^verbatim>\<open>_id\<close> property.
\<close>

definition apply_modifier :: "obj \<Rightarrow> modifier \<Rightarrow> obj" where
  "apply_modifier d m =
     (let d1 = (case mod_set m of None \<Rightarrow> d | Some s \<Rightarrow> js_spread d s)
      in (case mod_unset m of None \<Rightarrow> d1
          | Some u \<Rightarrow> fold (\<lambda>k acc. js_delete acc k) (Object_keys u) d1))"

definition coll_insert :: "collection \<Rightarrow> obj \<Rightarrow> outcome" where
  "coll_insert c d =
     (let c1 = logged c (Insert d); i = js_get d ''_id''
      in if docs c i \<noteq> None then (Some DuplicateId, c1)
         else (None, c1\<lparr>docs := (docs c)(i \<mapsto> d)\<rparr>))"

definition coll_update :: "collection \<Rightarrow> ident \<Rightarrow> update_arg \<Rightarrow> outcome" where
  "coll_update c i a =
     (let c1 = logged c (Update i a)
      in case docs c i of
           None \<Rightarrow> (Some NoSuchDocument, c1)
         | Some d \<Rightarrow>
             (case a of
                Modifier m \<Rightarrow> (None, c1\<lparr>docs := (docs c)(i \<mapsto> apply_modifier d m)\<rparr>)
              | Replacement r \<Rightarrow> (None, c1\<lparr>docs := (docs c)(i \<mapsto> r)\<rparr>)))"

definition coll_remove :: "collection \<Rightarrow> ident \<Rightarrow> outcome" where
  "coll_remove c i =
     (let c1 = logged c (Remove i)
      in case docs c i of
           None \<Rightarrow> (Some NoSuchDocument, c1)
         | Some d \<Rightarrow> (None, c1\<lparr>docs := (docs c)(i := None)\<rparr>))"

definition coll_remove_all :: "collection \<Rightarrow> collection" where
  "coll_remove_all c = (logged c RemoveAll)\<lparr>docs := Map.empty\<rparr>"

definition pauseObservers :: "collection \<Rightarrow> collection" where
  "pauseObservers c = logged c PauseObservers"

definition resumeObservers :: "collection \<Rightarrow> collection" where
  "resumeObservers c = logged c ResumeObservers"

section \<open>The replication store\<close>

text \<open>
  \<^verbatim>\<open>beginUpdate(batchSize, reset)\<close>: pause the observers when
  \<^verbatim>\<open>batchSize > 1 || reset\<close>, then empty the collection when \<^verbatim>\<open>reset\<close>.
\<close>

definition beginUpdate :: "collection \<Rightarrow> int \<Rightarrow> bool \<Rightarrow> collection" where
  "beginUpdate c batchSize reset =
     (let c1 = (if batchSize > 1 \<or> reset then pauseObservers c else c)
      in if reset then coll_remove_all c1 else c1)"

text \<open>\<^verbatim>\<open>endUpdate()\<close>: resume the observers.\<close>

definition endUpdate :: "collection \<Rightarrow> collection" where
  "endUpdate c = resumeObservers c"

definition processReplace :: "collection \<Rightarrow> ident \<Rightarrow> obj option \<Rightarrow> message \<Rightarrow> outcome" where
  "processReplace c mongoId doc m =
     (case msg_replace m of
        None \<Rightarrow> (if doc \<noteq> None then coll_remove c mongoId else (None, c))
      | Some r \<Rightarrow>
          (if doc = None then coll_insert c r
           else coll_update c mongoId (Replacement r)))"

text \<open>
  \<^verbatim>\<open>{ _id: mongoId, ...msg.fields }\<close>; spreading \<^verbatim>\<open>undefined\<close> adds nothing.
\<close>

definition processAdded :: "collection \<Rightarrow> ident \<Rightarrow> message \<Rightarrow> outcome" where
  "processAdded c mongoId m =
     coll_insert c
       (js_spread [(''_id'', mongoId)] (case msg_fields m of None \<Rightarrow> [] | Some f \<Rightarrow> f))"

definition processRemoved :: "collection \<Rightarrow> ident \<Rightarrow> obj \<Rightarrow> message \<Rightarrow> outcome" where
  "processRemoved c mongoId doc m = coll_remove c mongoId"

text \<open>
  The body of the \<^verbatim>\<open>keys.forEach\<close> callback of \<^verbatim>\<open>_processChanged\<close>, for one key,
  and the loop. \<open>eq\<close> is \<^verbatim>\<open>EJSON.equals\<close>, the deep equality the source is given.
  \<^verbatim>\<open>msg.fields[key]\<close> and \<^verbatim>\<open>doc[key]\<close> are property reads, and
  \<^verbatim>\<open>modifier.$unset[key] = 1\<close> and \<^verbatim>\<open>modifier.$set[key] = value\<close> are
  assignments.
\<close>

definition changed_key ::
  "(jsval \<Rightarrow> jsval \<Rightarrow> bool) \<Rightarrow> obj \<Rightarrow> obj \<Rightarrow> string \<Rightarrow> modifier \<Rightarrow> modifier" where
  "changed_key eq doc flds key md =
     (let v = js_get flds key
      in if eq (js_get doc key) v then md
         else if v = JUndefined then
           md\<lparr>mod_unset :=
               Some (js_assign (case mod_unset md of None \<Rightarrow> [] | Some u \<Rightarrow> u) key (JNum 1))\<rparr>
         else
           md\<lparr>mod_set :=
               Some (js_assign (case mod_set md of None \<Rightarrow> [] | Some s \<Rightarrow> s) key v)\<rparr>)"

definition changed_modifier ::
  "(jsval \<Rightarrow> jsval \<Rightarrow> bool) \<Rightarrow> obj \<Rightarrow> obj \<Rightarrow> modifier" where
  "changed_modifier eq doc flds =
     fold (changed_key eq doc flds) (Object_keys flds) \<lparr>mod_set = None, mod_unset = None\<rparr>"

text \<open>
  \<^verbatim>\<open>Object.keys(modifier)\<close>: the properties the modifier object has. Only their
  number is used, so the order in which the two were created is not kept.
\<close>

definition modifier_keys :: "modifier \<Rightarrow> string list" where
  "modifier_keys md =
     (if mod_unset md \<noteq> None \<and> mod_set md \<noteq> None then [''$unset'', ''$set'']
      else if mod_unset md \<noteq> None then [''$unset'']
      else if mod_set md \<noteq> None then [''$set'']
      else [])"

definition processChanged ::
  "(jsval \<Rightarrow> jsval \<Rightarrow> bool) \<Rightarrow> collection \<Rightarrow> ident \<Rightarrow> obj \<Rightarrow> message \<Rightarrow> outcome" where
  "processChanged eq c mongoId doc m =
     (case msg_fields m of
        None \<Rightarrow> (Some TypeError, c)
      | Some flds \<Rightarrow>
          (if length (Object_keys flds) > 0 then
             (let md = changed_modifier eq doc flds
              in if length (modifier_keys md) > 0
                 then coll_update c mongoId (Modifier md)
                 else (None, c))
           else (None, c)))"

text \<open>\<^verbatim>\<open>update(msg)\<close>: the switch on the tag, in the order of the source.\<close>

definition update :: "(jsval \<Rightarrow> jsval \<Rightarrow> bool) \<Rightarrow> collection \<Rightarrow> message \<Rightarrow> outcome" where
  "update eq c m =
     (let mongoId = msg_id m; doc = docs c mongoId
      in if msg m = ''replace'' then processReplace c mongoId doc m
         else if msg m = ''added'' then
           (case doc of
              Some d \<Rightarrow> (Some AddOnExisting, c)
            | None \<Rightarrow> processAdded c mongoId m)
         else if msg m = ''removed'' then
           (case doc of
              None \<Rightarrow> (Some RemoveOnMissing, c)
            | Some d \<Rightarrow> processRemoved c mongoId d m)
         else if msg m = ''changed'' then
           (case doc of
              None \<Rightarrow> (Some ChangeOnMissing, c)
            | Some d \<Rightarrow> processChanged eq c mongoId d m)
         else (Some (UnknownMessage (msg m)), c))"

section \<open>The calling sequence\<close>

text \<open>
  Modelled from the spec: the orchestrating caller (not part of the source file), which
  calls \<open>begin_update(batch_size, reset)\<close>, then applies the messages of the batch in
  delivery order, then calls \<open>end_update()\<close>. An error of a message propagates to the
  caller at once: the messages after it and \<open>end_update\<close> are not reached.
\<close>

fun updates :: "(jsval \<Rightarrow> jsval \<Rightarrow> bool) \<Rightarrow> collection \<Rightarrow> message list \<Rightarrow> outcome" where
  "updates eq c [] = (None, c)"
| "updates eq c (m # ms) =
     (case update eq c m of
        (Some e, c') \<Rightarrow> (Some e, c')
      | (None, c') \<Rightarrow> updates eq c' ms)"

definition run_batch ::
  "(jsval \<Rightarrow> jsval \<Rightarrow> bool) \<Rightarrow> collection \<Rightarrow> int \<Rightarrow> bool \<Rightarrow> message list \<Rightarrow> outcome" where
  "run_batch eq c batchSize reset ms =
     (case updates eq (beginUpdate c batchSize reset) ms of
        (Some e, c') \<Rightarrow> (Some e, c')
      | (None, c') \<Rightarrow> (None, endUpdate c'))"

section \<open>Notions used in the statements\<close>

text \<open>The field names of an optional object: none when the object does not exist.\<close>

definition opt_keys :: "obj option \<Rightarrow> string set" where
  "opt_keys x = (case x of None \<Rightarrow> {} | Some ob \<Rightarrow> set (Object_keys ob))"

text \<open>The pause and resume calls among the calls made on the collection.\<close>

definition notifications :: "call list \<Rightarrow> call list" where
  "notifications cs = filter (\<lambda>e. e = PauseObservers \<or> e = ResumeObservers) cs"

text \<open>
  The protocol invariant violations: add on existing, remove on missing, change on
  missing, unknown message tag.
\<close>

fun protocol_violation :: "error \<Rightarrow> bool" where
  "protocol_violation AddOnExisting = True"
| "protocol_violation RemoveOnMissing = True"
| "protocol_violation ChangeOnMissing = True"
| "protocol_violation (UnknownMessage t) = True"
| "protocol_violation e = False"

text \<open>
  A message has its required fields when it carries a field mapping if its tag is
  \<^verbatim>\<open>added\<close> or \<^verbatim>\<open>changed\<close>.
\<close>

definition has_required_fields :: "message \<Rightarrow> bool" where
  "has_required_fields m =
     (if msg m = ''added'' \<or> msg m = ''changed'' then msg_fields m \<noteq> None else True)"

text \<open>
  A message can name a second document: the field mapping of an \<^verbatim>\<open>added\<close>
  message can have an \<^verbatim>\<open>_id\<close> of its own, which the spread puts in the place of
  the identifier of the message, and the replacement document of a \<^verbatim>\<open>replace\<close>
  message can carry another \<^verbatim>\<open>_id\<close> than the identifier of the message.
\<close>

definition carries_other_id :: "message \<Rightarrow> bool" where
  "carries_other_id m =
     (if msg m = ''added'' then
        (case msg_fields m of None \<Rightarrow> False | Some f \<Rightarrow> ''_id'' \<in> set (Object_keys f))
      else if msg m = ''replace'' then
        (case msg_replace m of None \<Rightarrow> False | Some r \<Rightarrow> js_get r ''_id'' \<noteq> msg_id m)
      else False)"

text \<open>
  The cases in which \<open>update\<close> throws an error of its own: the preconditions of
  the three guarded tags, and a tag that the switch does not have.
\<close>

definition violates_protocol :: "collection \<Rightarrow> message \<Rightarrow> bool" where
  "violates_protocol c m =
     (msg m = ''added'' \<and> docs c (msg_id m) \<noteq> None
      \<or> msg m = ''removed'' \<and> docs c (msg_id m) = None
      \<or> msg m = ''changed'' \<and> docs c (msg_id m) = None
      \<or> msg m \<notin> {''replace'', ''added'', ''removed'', ''changed''})"

section \<open>Objects\<close>

lemma map_of_js_put: "map_of (js_put ob k v) = (map_of ob)(k \<mapsto> v)"
  by (induction ob) (auto simp: fun_eq_iff)

lemma keys_js_put: "set (Object_keys (js_put ob k v)) = insert k (set (Object_keys ob))"
  by (induction ob) (auto simp: Object_keys_def)

lemma keys_js_assign:
  "set (Object_keys (js_assign ob k v)) =
     (if k = ''__proto__'' \<and> k \<notin> set (Object_keys ob) then set (Object_keys ob)
      else insert k (set (Object_keys ob)))"
  by (auto simp: js_assign_def keys_js_put)

lemma Object_keys_Nil: "Object_keys [] = []"
  by (simp add: Object_keys_def)


lemma map_of_js_spread: "map_of (js_spread a b) = map_of a ++ map_of (rev b)"
  unfolding js_spread_def
  by (induction b arbitrary: a) (auto simp: map_of_js_put fun_eq_iff map_add_def split: option.splits)

lemma map_of_js_spread_other:
  "j \<notin> set (Object_keys b) \<Longrightarrow> map_of (js_spread a b) j = map_of a j"
  unfolding js_spread_def
  by (induction b arbitrary: a) (auto simp: map_of_js_put Object_keys_def)



lemma opt_keys_None: "opt_keys None = {}"
  by (simp add: opt_keys_def)

lemma opt_keys_Some: "opt_keys (Some ob) = set (Object_keys ob)"
  by (simp add: opt_keys_def)


section \<open>The modifier\<close>

lemma changed_key_unset_keys:
  assumes "''__proto__'' \<notin> opt_keys (mod_unset md)"
  shows "opt_keys (mod_unset (changed_key eq doc flds k md)) =
     opt_keys (mod_unset md) \<union>
     (if \<not> eq (js_get doc k) (js_get flds k) \<and> js_get flds k = JUndefined
         \<and> k \<noteq> ''__proto__'' then {k} else {})"
  using assms
  by (cases "mod_unset md")
     (auto simp: changed_key_def opt_keys_Some opt_keys_None keys_js_assign Let_def Object_keys_Nil)

lemma changed_key_set_keys:
  assumes "''__proto__'' \<notin> opt_keys (mod_set md)"
  shows "opt_keys (mod_set (changed_key eq doc flds k md)) =
     opt_keys (mod_set md) \<union>
     (if \<not> eq (js_get doc k) (js_get flds k) \<and> js_get flds k \<noteq> JUndefined
         \<and> k \<noteq> ''__proto__'' then {k} else {})"
  using assms
  by (cases "mod_set md")
     (auto simp: changed_key_def opt_keys_Some opt_keys_None keys_js_assign Let_def Object_keys_Nil)

lemma fold_unset_keys:
  "''__proto__'' \<notin> opt_keys (mod_unset md) \<Longrightarrow>
   opt_keys (mod_unset (fold (changed_key eq doc flds) ks md)) =
     opt_keys (mod_unset md) \<union>
     {k \<in> set ks. \<not> eq (js_get doc k) (js_get flds k) \<and> js_get flds k = JUndefined
        \<and> k \<noteq> ''__proto__''}"
proof (induction ks arbitrary: md)
  case Nil
  then show ?case by simp
next
  case (Cons k ks)
  have step: "opt_keys (mod_unset (changed_key eq doc flds k md)) =
     opt_keys (mod_unset md) \<union>
     (if \<not> eq (js_get doc k) (js_get flds k) \<and> js_get flds k = JUndefined
         \<and> k \<noteq> ''__proto__'' then {k} else {})"
    using Cons.prems by (rule changed_key_unset_keys)
  then have inv: "''__proto__'' \<notin> opt_keys (mod_unset (changed_key eq doc flds k md))"
    using Cons.prems by auto
  show ?case
    using Cons.IH [OF inv] step by auto
qed

lemma fold_set_keys:
  "''__proto__'' \<notin> opt_keys (mod_set md) \<Longrightarrow>
   opt_keys (mod_set (fold (changed_key eq doc flds) ks md)) =
     opt_keys (mod_set md) \<union>
     {k \<in> set ks. \<not> eq (js_get doc k) (js_get flds k) \<and> js_get flds k \<noteq> JUndefined
        \<and> k \<noteq> ''__proto__''}"
proof (induction ks arbitrary: md)
  case Nil
  then show ?case by simp
next
  case (Cons k ks)
  have step: "opt_keys (mod_set (changed_key eq doc flds k md)) =
     opt_keys (mod_set md) \<union>
     (if \<not> eq (js_get doc k) (js_get flds k) \<and> js_get flds k \<noteq> JUndefined
         \<and> k \<noteq> ''__proto__'' then {k} else {})"
    using Cons.prems by (rule changed_key_set_keys)
  then have inv: "''__proto__'' \<notin> opt_keys (mod_set (changed_key eq doc flds k md))"
    using Cons.prems by auto
  show ?case
    using Cons.IH [OF inv] step by auto
qed

lemma fold_all_equal:
  "\<forall>k\<in>set ks. eq (js_get doc k) (js_get flds k) \<Longrightarrow>
   fold (changed_key eq doc flds) ks md = md"
  by (induction ks arbitrary: md) (auto simp: changed_key_def)

lemma changed_modifier_unset_keys:
  "opt_keys (mod_unset (changed_modifier eq d f)) =
     {k \<in> set (Object_keys f). \<not> eq (js_get d k) (js_get f k) \<and> js_get f k = JUndefined
        \<and> k \<noteq> ''__proto__''}"
  by (simp add: changed_modifier_def fold_unset_keys opt_keys_None)

lemma changed_modifier_set_keys:
  "opt_keys (mod_set (changed_modifier eq d f)) =
     {k \<in> set (Object_keys f). \<not> eq (js_get d k) (js_get f k) \<and> js_get f k \<noteq> JUndefined
        \<and> k \<noteq> ''__proto__''}"
  by (simp add: changed_modifier_def fold_set_keys opt_keys_None)

lemma changed_modifier_disjoint:
  "opt_keys (mod_set (changed_modifier eq d f)) \<inter> opt_keys (mod_unset (changed_modifier eq d f)) = {}"
  by (auto simp: changed_modifier_unset_keys changed_modifier_set_keys)



section \<open>The collection calls and the message handlers\<close>

lemma coll_insert_absent:
  "docs c (js_get d ''_id'') = None \<Longrightarrow>
   coll_insert c d = (None, c\<lparr>calls := calls c @ [Insert d], docs := (docs c)(js_get d ''_id'' \<mapsto> d)\<rparr>)"
  by (simp add: coll_insert_def logged_def Let_def)

lemma coll_update_present:
  "docs c i = Some d \<Longrightarrow> fst (coll_update c i a) = None"
  by (simp add: coll_update_def Let_def split: update_arg.splits)

lemma coll_remove_present:
  "docs c i = Some d \<Longrightarrow>
   coll_remove c i = (None, c\<lparr>calls := calls c @ [Remove i], docs := (docs c)(i := None)\<rparr>)"
  by (simp add: coll_remove_def logged_def Let_def)

lemma js_get_added_id:
  "''_id'' \<notin> set (Object_keys f) \<Longrightarrow> js_get (js_spread [(''_id'', i)] f) ''_id'' = i"
  by (simp add: js_get_def map_of_js_spread_other)

lemma processChanged_present:
  "docs c i = Some d \<Longrightarrow> msg_fields m = Some f \<Longrightarrow> fst (processChanged eq c i d m) = None"
  by (simp add: processChanged_def Let_def coll_update_present)

lemma coll_insert_error:
  "fst (coll_insert c d) = Some e \<Longrightarrow>
   e = DuplicateId \<and> docs c (js_get d ''_id'') \<noteq> None \<and> docs (snd (coll_insert c d)) = docs c"
  by (auto simp: coll_insert_def logged_def Let_def split: if_splits)

lemma coll_update_error: "fst (coll_update c i a) = Some e \<Longrightarrow> e = NoSuchDocument \<and> docs (snd (coll_update c i a)) = docs c"
  by (auto simp: coll_update_def logged_def Let_def split: option.splits update_arg.splits)

lemma coll_remove_error: "fst (coll_remove c i) = Some e \<Longrightarrow> e = NoSuchDocument \<and> docs (snd (coll_remove c i)) = docs c"
  by (auto simp: coll_remove_def logged_def Let_def split: option.splits)

lemma processChanged_error:
  "fst (processChanged eq c i d m) = Some e \<Longrightarrow>
   (e = TypeError \<or> e = NoSuchDocument) \<and> docs (snd (processChanged eq c i d m)) = docs c"
  by (auto simp: processChanged_def Let_def split: option.splits if_splits dest: coll_update_error)

lemma processReplace_error:
  "fst (processReplace c i doc m) = Some e \<Longrightarrow>
   (e = DuplicateId \<or> e = NoSuchDocument) \<and> docs (snd (processReplace c i doc m)) = docs c"
  by (auto simp: processReplace_def split: option.splits if_splits
      dest: coll_update_error coll_insert_error coll_remove_error)

lemma processReplace_absent_error:
  assumes "docs c i = None" and "fst (processReplace c i (docs c i) m) = Some e"
  shows "e = DuplicateId \<and> (\<exists>r. msg_replace m = Some r \<and> js_get r ''_id'' \<noteq> i)"
proof (cases "msg_replace m")
  case None
  with assms show ?thesis by (simp add: processReplace_def)
next
  case (Some r)
  with assms have "fst (coll_insert c r) = Some e"
    by (simp add: processReplace_def)
  from coll_insert_error [OF this] assms(1) Some show ?thesis
    by auto
qed

lemma processReplace_present_ok:
  "docs c i = Some d \<Longrightarrow> fst (processReplace c i (docs c i) m) = None"
  by (auto simp: processReplace_def coll_remove_present coll_update_present split: option.splits)

lemma processAdded_error:
  assumes "docs c i = None" and "fst (processAdded c i m) = Some e"
  shows "e = DuplicateId \<and> (\<exists>f. msg_fields m = Some f \<and> ''_id'' \<in> set (Object_keys f))"
proof -
  let ?f = "case msg_fields m of None \<Rightarrow> [] | Some f \<Rightarrow> f"
  from assms(2) have err: "fst (coll_insert c (js_spread [(''_id'', i)] ?f)) = Some e"
    by (simp add: processAdded_def)
  from coll_insert_error [OF err]
  have e: "e = DuplicateId" and dup: "docs c (js_get (js_spread [(''_id'', i)] ?f) ''_id'') \<noteq> None"
    by simp_all
  have "''_id'' \<in> set (Object_keys ?f)"
  proof (rule ccontr)
    assume "''_id'' \<notin> set (Object_keys ?f)"
    then have "js_get (js_spread [(''_id'', i)] ?f) ''_id'' = i"
      by (rule js_get_added_id)
    with dup assms(1) show False by simp
  qed
  with e show ?thesis
    by (cases "msg_fields m") (simp_all add: Object_keys_Nil)
qed

lemma notifications_append: "notifications (xs @ ys) = notifications xs @ notifications ys"
  by (simp add: notifications_def)

lemma coll_insert_notifications:
  "notifications (calls (snd (coll_insert c d))) = notifications (calls c)"
  by (simp add: coll_insert_def logged_def Let_def notifications_def)

lemma coll_update_notifications:
  "notifications (calls (snd (coll_update c i a))) = notifications (calls c)"
  by (simp add: coll_update_def logged_def Let_def notifications_def
      split: option.splits update_arg.splits)

lemma coll_remove_notifications:
  "notifications (calls (snd (coll_remove c i))) = notifications (calls c)"
  by (simp add: coll_remove_def logged_def Let_def notifications_def split: option.splits)

lemma update_notifications:
  "notifications (calls (snd (update eq c m))) = notifications (calls c)"
  by (simp add: update_def Let_def processReplace_def processAdded_def processRemoved_def
      processChanged_def coll_insert_notifications coll_update_notifications
      coll_remove_notifications split: option.splits)

lemma updates_notifications:
  "notifications (calls (snd (updates eq c ms))) = notifications (calls c)"
proof (induction ms arbitrary: c)
  case Nil
  then show ?case by simp
next
  case (Cons m ms)
  show ?case
  proof (cases "update eq c m")
    case (Pair r c')
    have "notifications (calls c') = notifications (calls c)"
      using update_notifications [of eq c m] Pair by simp
    with Pair Cons.IH [of c'] show ?thesis
      by (cases r) simp_all
  qed
qed

lemma beginUpdate_calls:
  "calls (beginUpdate c n r) =
     calls c @ (if n > 1 \<or> r then [PauseObservers] else []) @ (if r then [RemoveAll] else [])"
  by (simp add: beginUpdate_def pauseObservers_def coll_remove_all_def logged_def)

lemma beginUpdate_docs:
  "docs (beginUpdate c n r) = (if r then Map.empty else docs c)"
  by (simp add: beginUpdate_def pauseObservers_def coll_remove_all_def logged_def)

lemma endUpdate_calls: "calls (endUpdate c) = calls c @ [ResumeObservers]"
  by (simp add: endUpdate_def resumeObservers_def logged_def)

section \<open>Errors of update\<close>

text \<open>
  An \<^verbatim>\<open>added\<close> message that has its field mapping, for an identifier absent from
  the collection, can still end in an error: the mapping here has an \<^verbatim>\<open>_id\<close> of its
  own, the spread puts it in the place of the identifier of the message, and the
  collection rejects the insert because it holds a document of that identifier.
\<close>

theorem update_added_other_id_counterexample:
  "has_required_fields
     \<lparr>msg = ''added'', msg_id = JNum 1, msg_fields = Some [(''_id'', JNum 2)],
      msg_replace = None\<rparr>
   \<and> docs \<lparr>docs = [JNum 2 \<mapsto> [(''_id'', JNum 2)]], calls = []\<rparr> (JNum 1) = None
   \<and> update (=) \<lparr>docs = [JNum 2 \<mapsto> [(''_id'', JNum 2)]], calls = []\<rparr>
       \<lparr>msg = ''added'', msg_id = JNum 1, msg_fields = Some [(''_id'', JNum 2)],
        msg_replace = None\<rparr>
     = (Some DuplicateId,
        \<lparr>docs = [JNum 2 \<mapsto> [(''_id'', JNum 2)]], calls = [Insert [(''_id'', JNum 2)]]\<rparr>)"
  by (simp add: has_required_fields_def update_def Let_def processAdded_def js_spread_def
      coll_insert_def js_get_def logged_def)

text \<open>
  Claim C1, as the source has it. For a message that has its required fields,
  \<open>update\<close> throws a protocol invariant violation if and only if the message is
  \<^verbatim>\<open>added\<close> and the identifier is present in the collection, or \<^verbatim>\<open>removed\<close>
  and the identifier is absent, or \<^verbatim>\<open>changed\<close> and the identifier is absent, or
  its tag is none of the four tags of the switch. That error is the result of the same
  invocation and no call was made on the collection before it (nothing was tried,
  nothing is tried again). Any other error is the collection rejecting an insert as a
  duplicate, and the message then carries another identifier than its own; a message
  that does not, and is in none of the four cases, is applied without an error.
\<close>

theorem update_protocol_violation_iff:
  assumes req: "has_required_fields m"
  shows "((\<exists>e. fst (update eq c m) = Some e \<and> protocol_violation e) = violates_protocol c m)
         \<and> (\<forall>e. fst (update eq c m) = Some e \<and> protocol_violation e \<longrightarrow>
               snd (update eq c m) = c)
         \<and> (\<forall>e. fst (update eq c m) = Some e \<and> \<not> protocol_violation e \<longrightarrow>
               e = DuplicateId \<and> carries_other_id m)
         \<and> (\<not> violates_protocol c m \<and> \<not> carries_other_id m \<longrightarrow> fst (update eq c m) = None)"
proof -
  let ?i = "msg_id m"
  consider (rep) "msg m = ''replace''" | (add) "msg m = ''added''" | (rem) "msg m = ''removed''"
    | (chg) "msg m = ''changed''"
    | (other) "msg m \<notin> {''replace'', ''added'', ''removed'', ''changed''}"
    by auto
  then have main:
    "(violates_protocol c m \<longrightarrow>
        (\<exists>e. fst (update eq c m) = Some e \<and> protocol_violation e) \<and> snd (update eq c m) = c)
     \<and> (\<not> violates_protocol c m \<longrightarrow>
        (\<forall>e. fst (update eq c m) = Some e \<longrightarrow> e = DuplicateId \<and> carries_other_id m))"
  proof cases
    case rep
    then have up: "update eq c m = processReplace c ?i (docs c ?i) m"
      by (simp add: update_def Let_def)
    have nv: "\<not> violates_protocol c m"
      using rep by (simp add: violates_protocol_def)
    have "e = DuplicateId \<and> carries_other_id m" if "fst (update eq c m) = Some e" for e
    proof (cases "docs c ?i")
      case None
      from processReplace_absent_error [OF None, of m e] that up
      obtain r where "msg_replace m = Some r" and "js_get r ''_id'' \<noteq> ?i" and "e = DuplicateId"
        by auto
      with rep show ?thesis
        by (simp add: carries_other_id_def)
    next
      case (Some d)
      from processReplace_present_ok [OF Some] that up show ?thesis by simp
    qed
    with nv show ?thesis by blast
  next
    case add
    show ?thesis
    proof (cases "docs c ?i")
      case None
      with add have up: "update eq c m = processAdded c ?i m"
        by (simp add: update_def Let_def)
      have nv: "\<not> violates_protocol c m"
        using add None by (simp add: violates_protocol_def)
      have "e = DuplicateId \<and> carries_other_id m" if "fst (update eq c m) = Some e" for e
        using processAdded_error [OF None, of m e] that up add
        by (auto simp: carries_other_id_def)
      with nv show ?thesis by blast
    next
      case (Some d)
      with add show ?thesis
        by (simp add: update_def Let_def violates_protocol_def)
    qed
  next
    case rem
    then show ?thesis
      by (cases "docs c ?i")
         (simp_all add: update_def Let_def violates_protocol_def processRemoved_def
            coll_remove_present)
  next
    case chg
    with req obtain f where f: "msg_fields m = Some f"
      by (auto simp: has_required_fields_def)
    show ?thesis
    proof (cases "docs c ?i")
      case None
      with chg show ?thesis
        by (simp add: update_def Let_def violates_protocol_def)
    next
      case (Some d)
      from processChanged_present [OF Some f, of eq] chg Some show ?thesis
        by (simp add: update_def Let_def violates_protocol_def)
    qed
  next
    case other
    then show ?thesis
      by (simp add: update_def Let_def violates_protocol_def)
  qed
  have dup: "\<not> protocol_violation DuplicateId" by simp
  from main dup show ?thesis
    by (cases "violates_protocol c m") auto
qed

theorem update_protocol_violation_iff_witness:
  "has_required_fields \<lparr>msg = ''added'', msg_id = JNum 1, msg_fields = Some [(''x'', JNum 1)],
                msg_replace = None\<rparr>
   \<and> update (=) \<lparr>docs = [JNum 1 \<mapsto> [(''_id'', JNum 1)]], calls = []\<rparr>
        \<lparr>msg = ''added'', msg_id = JNum 1, msg_fields = Some [(''x'', JNum 1)],
         msg_replace = None\<rparr>
       = (Some AddOnExisting, \<lparr>docs = [JNum 1 \<mapsto> [(''_id'', JNum 1)]], calls = []\<rparr>)
   \<and> fst (update (=) \<lparr>docs = Map.empty, calls = []\<rparr>
        \<lparr>msg = ''added'', msg_id = JNum 1, msg_fields = Some [(''x'', JNum 1)],
         msg_replace = None\<rparr>) = None"
proof -
  let ?m = "\<lparr>msg = ''added'', msg_id = JNum 1, msg_fields = Some [(''x'', JNum 1)],
             msg_replace = None\<rparr>"
  let ?c = "\<lparr>docs = [JNum 1 \<mapsto> [(''_id'', JNum 1)]], calls = []\<rparr>"
  let ?empty = "\<lparr>docs = Map.empty, calls = []\<rparr>"
  have req: "has_required_fields ?m"
    by (simp add: has_required_fields_def)
  have v: "violates_protocol ?c ?m"
    by (simp add: violates_protocol_def)
  from update_protocol_violation_iff [OF req, of "(=)" ?c] v
  obtain e where e: "fst (update (=) ?c ?m) = Some e" "protocol_violation e"
    and s: "snd (update (=) ?c ?m) = ?c"
    by blast
  have "e = AddOnExisting"
    using e(1) by (simp add: update_def Let_def)
  with e s have one: "update (=) ?c ?m = (Some AddOnExisting, ?c)"
    by (simp add: prod_eq_iff)
  have nv: "\<not> violates_protocol ?empty ?m" and no: "\<not> carries_other_id ?m"
    by (simp_all add: violates_protocol_def carries_other_id_def Object_keys_def)
  from update_protocol_violation_iff [OF req, of "(=)" ?empty] nv no
  have two: "fst (update (=) ?empty ?m) = None"
    by blast
  from req one two show ?thesis by simp
qed

text \<open>
  Claim C10. If \<open>update\<close> throws, the documents of the collection are exactly what
  they were before the call; when the error is one that \<open>update\<close> throws itself (a
  violated precondition or an unknown tag), no call at all was made on the collection.
\<close>

theorem update_error_no_mutation:
  assumes "fst (update eq c m) = Some e"
  shows "docs (snd (update eq c m)) = docs c
         \<and> (protocol_violation e \<longrightarrow> snd (update eq c m) = c)"
  using assms
  by (auto simp: update_def Let_def processAdded_def processRemoved_def
      split: if_splits option.splits
      dest: coll_insert_error coll_remove_error processChanged_error processReplace_error)

theorem update_error_no_mutation_witness:
  "fst (update (=) \<lparr>docs = Map.empty, calls = []\<rparr>
          \<lparr>msg = ''removed'', msg_id = JNum 1, msg_fields = None, msg_replace = None\<rparr>)
     = Some RemoveOnMissing
   \<and> snd (update (=) \<lparr>docs = Map.empty, calls = []\<rparr>
          \<lparr>msg = ''removed'', msg_id = JNum 1, msg_fields = None, msg_replace = None\<rparr>)
     = \<lparr>docs = Map.empty, calls = []\<rparr>"
proof -
  let ?m = "\<lparr>msg = ''removed'', msg_id = JNum 1, msg_fields = None, msg_replace = None\<rparr>"
  let ?c = "\<lparr>docs = Map.empty, calls = []\<rparr>"
  have e: "fst (update (=) ?c ?m) = Some RemoveOnMissing"
    by (simp add: update_def Let_def)
  from update_error_no_mutation [OF e] have "snd (update (=) ?c ?m) = ?c"
    by simp
  with e show ?thesis by simp
qed

section \<open>The tag of a replacement\<close>

text \<open>
  A message tagged \<^verbatim>\<open>replaced\<close> that carries a replacement document for an absent
  identifier is not applied: the switch of \<open>update\<close> has no such case, the message
  falls to the default and is rejected as unknown, and nothing is inserted.
\<close>

theorem replaced_tag_unknown_counterexample:
  "update (=) \<lparr>docs = Map.empty, calls = []\<rparr>
     \<lparr>msg = ''replaced'', msg_id = JNum 1, msg_fields = None,
      msg_replace = Some [(''_id'', JNum 1), (''x'', JNum 2)]\<rparr>
   = (Some (UnknownMessage ''replaced''), \<lparr>docs = Map.empty, calls = []\<rparr>)"
  by (simp add: update_def Let_def)

text \<open>
  Claim C2, as the source has it. The tag of a replacement is \<^verbatim>\<open>replace\<close>. For a
  message with that tag, a replacement document and an identifier absent from the
  collection, \<open>update\<close> inserts the document: it is the collection's insert of that
  document, and when the document carries the identifier of the message as its
  \<^verbatim>\<open>_id\<close> it ends with the document stored under that identifier and no error. A
  message tagged \<^verbatim>\<open>replaced\<close> is an unknown message.
\<close>

theorem replace_inserts:
  "(msg m = ''replace'' \<and> msg_replace m = Some d \<and> docs c (msg_id m) = None \<longrightarrow>
      update eq c m = coll_insert c d
      \<and> (js_get d ''_id'' = msg_id m \<longrightarrow>
           update eq c m =
             (None, c\<lparr>calls := calls c @ [Insert d], docs := (docs c)(msg_id m \<mapsto> d)\<rparr>)))
   \<and> (msg m = ''replaced'' \<longrightarrow> update eq c m = (Some (UnknownMessage ''replaced''), c))"
  by (auto simp: update_def Let_def processReplace_def coll_insert_absent)

theorem replace_inserts_witness:
  "update (=) \<lparr>docs = Map.empty, calls = []\<rparr>
     \<lparr>msg = ''replace'', msg_id = JNum 1, msg_fields = None,
      msg_replace = Some [(''_id'', JNum 1), (''x'', JNum 2)]\<rparr>
   = (None, \<lparr>docs = [JNum 1 \<mapsto> [(''_id'', JNum 1), (''x'', JNum 2)]],
             calls = [Insert [(''_id'', JNum 1), (''x'', JNum 2)]]\<rparr>)"
  using replace_inserts [where m = "\<lparr>msg = ''replace'', msg_id = JNum 1, msg_fields = None,
      msg_replace = Some [(''_id'', JNum 1), (''x'', JNum 2)]\<rparr>"
      and d = "[(''_id'', JNum 1), (''x'', JNum 2)]"
      and c = "\<lparr>docs = Map.empty, calls = []\<rparr>" and eq = "(=)"]
  by (simp add: js_get_def coll_insert_def logged_def Let_def)

section \<open>Pausing and resuming the observers\<close>

text \<open>
  A batch opened with a batch size of 1 and no reset pauses nothing, and
  \<open>endUpdate\<close> still calls resume on the collection: the only notification call
  of the pair is a resume.
\<close>

theorem resume_without_pause_counterexample:
  "calls (endUpdate (beginUpdate \<lparr>docs = Map.empty, calls = []\<rparr> 1 False)) = [ResumeObservers]"
  by (simp add: endUpdate_calls beginUpdate_calls)

text \<open>
  Claim C3, as the source has it. \<open>beginUpdate\<close> makes exactly one pause call when
  the batch size is above 1 or reset is set, and none otherwise; \<open>update\<close> makes no
  pause or resume call; \<open>endUpdate\<close> makes exactly one resume call whatever the
  batch was opened with. So a batch that runs to its end pauses once if the batch size
  is above 1 or reset is set, and resumes exactly once in every case, however many
  messages it applies.
\<close>

theorem batch_notifications:
  "notifications (calls (beginUpdate c n r)) =
     notifications (calls c) @ (if n > 1 \<or> r then [PauseObservers] else [])
   \<and> notifications (calls (snd (update eq c m))) = notifications (calls c)
   \<and> notifications (calls (endUpdate c)) = notifications (calls c) @ [ResumeObservers]
   \<and> (fst (run_batch eq c n r ms) = None \<longrightarrow>
        notifications (calls (snd (run_batch eq c n r ms))) =
          notifications (calls c) @ (if n > 1 \<or> r then [PauseObservers] else [])
            @ [ResumeObservers])"
proof -
  have b: "notifications (calls (beginUpdate c n r)) =
     notifications (calls c) @ (if n > 1 \<or> r then [PauseObservers] else [])"
    by (simp add: beginUpdate_calls notifications_def)
  have e: "notifications (calls (endUpdate c')) = notifications (calls c') @ [ResumeObservers]" for c'
    by (simp add: endUpdate_calls notifications_def)
  have "notifications (calls (snd (run_batch eq c n r ms))) =
          notifications (calls c) @ (if n > 1 \<or> r then [PauseObservers] else [])
            @ [ResumeObservers]" if ok: "fst (run_batch eq c n r ms) = None"
  proof (cases "updates eq (beginUpdate c n r) ms")
    case (Pair x c')
    with ok have x: "x = None"
      by (cases x) (simp_all add: run_batch_def)
    have "notifications (calls c') = notifications (calls (beginUpdate c n r))"
      using updates_notifications [of eq "beginUpdate c n r" ms] Pair by simp
    with Pair x b show ?thesis
      by (simp add: run_batch_def e)
  qed
  with b e update_notifications show ?thesis by blast
qed

theorem batch_notifications_witness:
  "fst (run_batch (=) \<lparr>docs = Map.empty, calls = []\<rparr> 3 False
      [\<lparr>msg = ''added'', msg_id = JNum 1, msg_fields = Some [], msg_replace = None\<rparr>,
       \<lparr>msg = ''added'', msg_id = JNum 2, msg_fields = Some [], msg_replace = None\<rparr>,
       \<lparr>msg = ''removed'', msg_id = JNum 1, msg_fields = None, msg_replace = None\<rparr>]) = None
   \<and> notifications (calls (snd (run_batch (=) \<lparr>docs = Map.empty, calls = []\<rparr> 3 False
      [\<lparr>msg = ''added'', msg_id = JNum 1, msg_fields = Some [], msg_replace = None\<rparr>,
       \<lparr>msg = ''added'', msg_id = JNum 2, msg_fields = Some [], msg_replace = None\<rparr>,
       \<lparr>msg = ''removed'', msg_id = JNum 1, msg_fields = None, msg_replace = None\<rparr>])))
     = [PauseObservers, ResumeObservers]"
proof -
  let ?c = "\<lparr>docs = Map.empty, calls = []\<rparr>"
  let ?ms = "[\<lparr>msg = ''added'', msg_id = JNum 1, msg_fields = Some [], msg_replace = None\<rparr>,
       \<lparr>msg = ''added'', msg_id = JNum 2, msg_fields = Some [], msg_replace = None\<rparr>,
       \<lparr>msg = ''removed'', msg_id = JNum 1, msg_fields = None, msg_replace = None\<rparr>]"
  have ok: "fst (run_batch (=) ?c 3 False ?ms) = None"
    by (simp add: run_batch_def beginUpdate_def pauseObservers_def logged_def update_def Let_def
        processAdded_def processRemoved_def js_spread_def coll_insert_def coll_remove_def
        js_get_def endUpdate_def resumeObservers_def)
  from batch_notifications [where c = ?c and n = 3 and r = False and eq = "(=)" and ms = ?ms] ok
  have "notifications (calls (snd (run_batch (=) ?c 3 False ?ms)))
          = notifications (calls ?c) @ (if (3::int) > 1 \<or> False then [PauseObservers] else [])
              @ [ResumeObservers]"
    by blast
  with ok show ?thesis by (simp add: notifications_def)
qed

text \<open>
  Claim C5. \<open>beginUpdate\<close> pauses the observers if and only if the batch size is
  above 1 or reset is set, and when reset is set it empties the collection, in the
  same call and so before any message of the batch. A collection holding documents 1
  and 2, given a reset batch whose only message adds document 3 with the field
  \<open>x = 1\<close>, ends holding document 3 alone.
\<close>

theorem beginUpdate_pause_reset:
  "calls (beginUpdate c n r) =
     calls c @ (if n > 1 \<or> r then [PauseObservers] else []) @ (if r then [RemoveAll] else [])
   \<and> docs (beginUpdate c n r) = (if r then Map.empty else docs c)
   \<and> run_batch (=)
        \<lparr>docs = [JNum 1 \<mapsto> [(''_id'', JNum 1)], JNum 2 \<mapsto> [(''_id'', JNum 2)]], calls = []\<rparr>
        1 True
        [\<lparr>msg = ''added'', msg_id = JNum 3, msg_fields = Some [(''x'', JNum 1)],
          msg_replace = None\<rparr>]
      = (None, \<lparr>docs = [JNum 3 \<mapsto> [(''_id'', JNum 3), (''x'', JNum 1)]],
                calls = [PauseObservers, RemoveAll,
                         Insert [(''_id'', JNum 3), (''x'', JNum 1)], ResumeObservers]\<rparr>)"
proof -
  have "run_batch (=)
        \<lparr>docs = [JNum 1 \<mapsto> [(''_id'', JNum 1)], JNum 2 \<mapsto> [(''_id'', JNum 2)]], calls = []\<rparr>
        1 True
        [\<lparr>msg = ''added'', msg_id = JNum 3, msg_fields = Some [(''x'', JNum 1)],
          msg_replace = None\<rparr>]
      = (None, \<lparr>docs = [JNum 3 \<mapsto> [(''_id'', JNum 3), (''x'', JNum 1)]],
                calls = [PauseObservers, RemoveAll,
                         Insert [(''_id'', JNum 3), (''x'', JNum 1)], ResumeObservers]\<rparr>)"
    by (simp add: run_batch_def beginUpdate_def pauseObservers_def coll_remove_all_def
        logged_def update_def Let_def processAdded_def js_spread_def coll_insert_def js_get_def
        endUpdate_def resumeObservers_def)
  then show ?thesis
    using beginUpdate_calls beginUpdate_docs by blast
qed

theorem beginUpdate_pause_reset_witness:
  "calls (beginUpdate \<lparr>docs = [JNum 1 \<mapsto> [(''_id'', JNum 1)]], calls = []\<rparr> 1 True)
     = [PauseObservers, RemoveAll]
   \<and> docs (beginUpdate \<lparr>docs = [JNum 1 \<mapsto> [(''_id'', JNum 1)]], calls = []\<rparr> 1 True)
     = Map.empty
   \<and> calls (beginUpdate \<lparr>docs = [JNum 1 \<mapsto> [(''_id'', JNum 1)]], calls = []\<rparr> 1 False)
     = []
   \<and> calls (beginUpdate \<lparr>docs = [JNum 1 \<mapsto> [(''_id'', JNum 1)]], calls = []\<rparr> 2 False)
     = [PauseObservers]"
  using beginUpdate_pause_reset [where c = "\<lparr>docs = [JNum 1 \<mapsto> [(''_id'', JNum 1)]], calls = []\<rparr>" and n = 1 and r = True]
    beginUpdate_pause_reset [where c = "\<lparr>docs = [JNum 1 \<mapsto> [(''_id'', JNum 1)]], calls = []\<rparr>" and n = 1 and r = False]
    beginUpdate_pause_reset [where c = "\<lparr>docs = [JNum 1 \<mapsto> [(''_id'', JNum 1)]], calls = []\<rparr>" and n = 2 and r = False]
  by simp

section \<open>Removing and replacing by nothing\<close>

text \<open>
  Claim C4. For an identifier absent from the collection, a \<^verbatim>\<open>removed\<close> message
  throws and a \<^verbatim>\<open>replace\<close> message without a replacement does nothing: no error,
  no call on the collection. For an identifier present in the collection, a
  \<^verbatim>\<open>replace\<close> message without a replacement removes the document.
\<close>

theorem removed_vs_replace_none:
  "(docs c i = None \<longrightarrow>
      update eq c \<lparr>msg = ''removed'', msg_id = i, msg_fields = f, msg_replace = r\<rparr>
        = (Some RemoveOnMissing, c)
      \<and> update eq c \<lparr>msg = ''replace'', msg_id = i, msg_fields = f, msg_replace = None\<rparr>
        = (None, c))
   \<and> (docs c i \<noteq> None \<longrightarrow>
      update eq c \<lparr>msg = ''replace'', msg_id = i, msg_fields = f, msg_replace = None\<rparr>
        = (None, c\<lparr>calls := calls c @ [Remove i], docs := (docs c)(i := None)\<rparr>))"
  by (auto simp: update_def Let_def processReplace_def coll_remove_present)

theorem removed_vs_replace_none_witness:
  "update (=) \<lparr>docs = Map.empty, calls = []\<rparr>
      \<lparr>msg = ''removed'', msg_id = JNum 1, msg_fields = None, msg_replace = None\<rparr>
     = (Some RemoveOnMissing, \<lparr>docs = Map.empty, calls = []\<rparr>)
   \<and> update (=) \<lparr>docs = Map.empty, calls = []\<rparr>
      \<lparr>msg = ''replace'', msg_id = JNum 1, msg_fields = None, msg_replace = None\<rparr>
     = (None, \<lparr>docs = Map.empty, calls = []\<rparr>)
   \<and> update (=) \<lparr>docs = [JNum 1 \<mapsto> [(''_id'', JNum 1)]], calls = []\<rparr>
      \<lparr>msg = ''replace'', msg_id = JNum 1, msg_fields = None, msg_replace = None\<rparr>
     = (None, \<lparr>docs = Map.empty, calls = [Remove (JNum 1)]\<rparr>)"
  using removed_vs_replace_none [where c = "\<lparr>docs = Map.empty, calls = []\<rparr>"
      and i = "JNum 1" and eq = "(=)" and f = None and r = None]
    removed_vs_replace_none [where c = "\<lparr>docs = [JNum 1 \<mapsto> [(''_id'', JNum 1)]], calls = []\<rparr>"
      and i = "JNum 1" and eq = "(=)" and f = None and r = None]
  by simp

section \<open>Changed messages\<close>

text \<open>
  What \<^verbatim>\<open>doc[key]\<close> reads is the value the document holds whenever the document
  has the field or \<^verbatim>\<open>Object.prototype\<close> has no member of that name. When every
  proposed value is deep-equal to what \<^verbatim>\<open>doc[key]\<close> reads, no call is made on the
  collection. The set part and the unset part of the modifier never share a name.
\<close>

lemma js_get_stored_value:
  "map_of ob k \<noteq> None \<or> map_of Object_prototype k = None \<Longrightarrow> js_get ob k = stored_value ob k"
  by (auto simp: js_get_def stored_value_def split: option.splits)

lemma changed_all_read_equal:
  assumes "docs c (msg_id m) = Some d" and "msg m = ''changed''" and "msg_fields m = Some f"
    and "\<forall>k \<in> set (Object_keys f). eq (js_get d k) (js_get f k)"
  shows "update eq c m = (None, c)"
proof -
  have md: "changed_modifier eq d f = \<lparr>mod_set = None, mod_unset = None\<rparr>"
    using assms(4) by (simp add: changed_modifier_def fold_all_equal)
  have "processChanged eq c (msg_id m) d m = (None, c)"
    using assms(3) md by (simp add: processChanged_def modifier_keys_def)
  with assms(1,2) show ?thesis
    by (simp add: update_def Let_def)
qed

text \<open>
  Claim C6. The document \<open>{_id: 1, a: 5}\<close> holds no value for \<open>toString\<close>, and
  the message proposes \<^verbatim>\<open>undefined\<close> for it: the proposed value is deep-equal to
  the current one. \<^verbatim>\<open>doc[key]\<close> reads the function inherited from
  \<^verbatim>\<open>Object.prototype\<close>, which is not deep-equal to \<^verbatim>\<open>undefined\<close>, so the
  modifier is not empty and \<open>update\<close> calls the collection's update with it.
\<close>

theorem changed_inherited_name_update_call:
  "stored_value [(''_id'', JNum 1), (''a'', JNum 5)] ''toString'' = JUndefined
   \<and> update (=) \<lparr>docs = [JNum 1 \<mapsto> [(''_id'', JNum 1), (''a'', JNum 5)]], calls = []\<rparr>
       \<lparr>msg = ''changed'', msg_id = JNum 1, msg_fields = Some [(''toString'', JUndefined)],
        msg_replace = None\<rparr>
     = (None,
        \<lparr>docs = [JNum 1 \<mapsto> [(''_id'', JNum 1), (''a'', JNum 5)]],
         calls = [Update (JNum 1)
                    (Modifier \<lparr>mod_set = None,
                               mod_unset = Some [(''toString'', JNum 1)]\<rparr>)]\<rparr>)"
  by (simp add: stored_value_def update_def Let_def processChanged_def changed_modifier_def
      changed_key_def Object_keys_def js_get_def Object_prototype_def js_assign_def
      modifier_keys_def coll_update_def logged_def apply_modifier_def js_delete_def)

text \<open>
  Claim C9. For the same document and proposed fields the field \<open>toString\<close> is in
  the unset part of the computed modifier, although its proposed value,
  \<^verbatim>\<open>undefined\<close>, does not differ from the value the document holds for it.
\<close>

theorem changed_inherited_name_in_patch:
  "stored_value [(''_id'', JNum 1), (''a'', JNum 5)] ''toString'' = JUndefined
   \<and> changed_modifier (=) [(''_id'', JNum 1), (''a'', JNum 5)] [(''toString'', JUndefined)]
     = \<lparr>mod_set = None, mod_unset = Some [(''toString'', JNum 1)]\<rparr>"
  by (simp add: stored_value_def changed_modifier_def changed_key_def Object_keys_def js_get_def
      Object_prototype_def js_assign_def)




section \<open>Messages without a field mapping\<close>

text \<open>
  An \<^verbatim>\<open>added\<close> message without a field mapping, for an absent identifier, throws
  nothing: the spread of \<^verbatim>\<open>undefined\<close> adds no property and the document holding
  the identifier alone is inserted.
\<close>

theorem added_without_fields_counterexample:
  "update (=) \<lparr>docs = Map.empty, calls = []\<rparr>
     \<lparr>msg = ''added'', msg_id = JNum 1, msg_fields = None, msg_replace = None\<rparr>
   = (None, \<lparr>docs = [JNum 1 \<mapsto> [(''_id'', JNum 1)]], calls = [Insert [(''_id'', JNum 1)]]\<rparr>)"
  by (simp add: update_def Let_def processAdded_def js_spread_def coll_insert_def js_get_def
      logged_def)

text \<open>
  Claim C8, as the source has it. A \<^verbatim>\<open>changed\<close> message without a field mapping
  always throws, before any call on the collection: the change-on-missing error when
  the identifier is absent, a type error from \<^verbatim>\<open>Object.keys\<close> otherwise. An
  \<^verbatim>\<open>added\<close> message without a field mapping, for an absent identifier, throws
  nothing and inserts the document that holds the identifier alone.
\<close>

theorem missing_fields:
  "(msg m = ''changed'' \<and> msg_fields m = None \<longrightarrow>
      update eq c m =
        (Some (if docs c (msg_id m) = None then ChangeOnMissing else TypeError), c))
   \<and> (msg m = ''added'' \<and> msg_fields m = None \<and> docs c (msg_id m) = None \<longrightarrow>
      update eq c m =
        (None, c\<lparr>calls := calls c @ [Insert [(''_id'', msg_id m)]],
                 docs := (docs c)(msg_id m \<mapsto> [(''_id'', msg_id m)])\<rparr>))"
  by (auto simp: update_def Let_def processChanged_def processAdded_def js_spread_def
      coll_insert_def js_get_def logged_def)

theorem missing_fields_witness:
  "update (=) \<lparr>docs = [JNum 1 \<mapsto> [(''_id'', JNum 1)]], calls = []\<rparr>
     \<lparr>msg = ''changed'', msg_id = JNum 1, msg_fields = None, msg_replace = None\<rparr>
   = (Some TypeError, \<lparr>docs = [JNum 1 \<mapsto> [(''_id'', JNum 1)]], calls = []\<rparr>)
   \<and> update (=) \<lparr>docs = Map.empty, calls = []\<rparr>
     \<lparr>msg = ''changed'', msg_id = JNum 1, msg_fields = None, msg_replace = None\<rparr>
   = (Some ChangeOnMissing, \<lparr>docs = Map.empty, calls = []\<rparr>)
   \<and> update (=) \<lparr>docs = Map.empty, calls = []\<rparr>
     \<lparr>msg = ''added'', msg_id = JNum 1, msg_fields = None, msg_replace = None\<rparr>
   = (None, \<lparr>docs = [JNum 1 \<mapsto> [(''_id'', JNum 1)]], calls = [Insert [(''_id'', JNum 1)]]\<rparr>)"
  using missing_fields [where m = "\<lparr>msg = ''changed'', msg_id = JNum 1, msg_fields = None,
          msg_replace = None\<rparr>"
        and c = "\<lparr>docs = [JNum 1 \<mapsto> [(''_id'', JNum 1)]], calls = []\<rparr>" and eq = "(=)"]
    missing_fields [where m = "\<lparr>msg = ''changed'', msg_id = JNum 1, msg_fields = None,
          msg_replace = None\<rparr>"
        and c = "\<lparr>docs = Map.empty, calls = []\<rparr>" and eq = "(=)"]
    missing_fields [where m = "\<lparr>msg = ''added'', msg_id = JNum 1, msg_fields = None,
          msg_replace = None\<rparr>"
        and c = "\<lparr>docs = Map.empty, calls = []\<rparr>" and eq = "(=)"]
  by simp

end
